theory Spec2Isabelle
  imports Complex_Main "HOL-Library.Sublist"
begin

section \<open>Command line and keyword set\<close>

text \<open>
  The namespace \<^verbatim>\<open>ARGS\<close> filled by \<^verbatim>\<open>parser.parse_args\<close> in \<^verbatim>\<open>main\<close>: one field per
  \<^verbatim>\<open>dest\<close> of the parser.
\<close>

record args =
  resolve :: bool
  only_resolving :: bool
  skip_lets_encrypt :: bool
  threads :: int
  log_to_file :: bool
  keywords_only :: bool

text \<open>
  Python's \<^verbatim>\<open>keyword in domain\<close> on two \<^verbatim>\<open>str\<close> values: \<^verbatim>\<open>keyword\<close> occurs in \<^verbatim>\<open>domain\<close>
  as a contiguous run of characters. The empty keyword occurs in every string.
\<close>

fun str_in :: "string \<Rightarrow> string \<Rightarrow> bool" where
  "str_in keyword [] = (keyword = [])"
| "str_in keyword (c # cs) = (prefix keyword (c # cs) \<or> str_in keyword cs)"

text \<open>
  \<^verbatim>\<open>get_permutations\<close>: the nine entries of the list literal, in the source's order and
  with its two repeated entries; the entry commented out in the source is absent.
\<close>

definition get_permutations :: "string \<Rightarrow> string list" where
  "get_permutations domain =
     [ domain @ ''-'',
       ''-'' @ domain @ ''-'',
       ''-'' @ domain,
       ''.'' @ domain @ ''.'',
       ''.'' @ domain,
       ''.'' @ domain @ ''-'',
       ''-'' @ domain,
       ''-'' @ domain @ ''.'',
       ''.'' @ domain @ ''.'' ]"

text \<open>
  The global \<^verbatim>\<open>KEYWORD_DOMAINS\<close> as \<^verbatim>\<open>main\<close> leaves it: it starts as the empty list; with
  \<^verbatim>\<open>--keywords-only\<close> the loop over \<^verbatim>\<open>INPUT_DOMAINS\<close> appends the permutations of each
  line, otherwise the input list itself is taken.
\<close>

definition KEYWORD_DOMAINS :: "args \<Rightarrow> string list \<Rightarrow> string list" where
  "KEYWORD_DOMAINS a INPUT_DOMAINS =
     (if keywords_only a
      then foldl (\<lambda>acc domain. acc @ get_permutations domain) [] INPUT_DOMAINS
      else INPUT_DOMAINS)"

text \<open>
  \<^verbatim>\<open>DomainWorker.__domain_contains_any_keywords\<close>. The \<^verbatim>\<open>except\<close> branch of the source
  answers \<^verbatim>\<open>False\<close> when \<^verbatim>\<open>in\<close> raises, which it does only for a domain that is not a
  string; the type \<^typ>\<open>string\<close> excludes that input.
\<close>

definition domain_contains_any_keywords :: "string list \<Rightarrow> string \<Rightarrow> bool" where
  "domain_contains_any_keywords keywords domain =
     list_ex (\<lambda>keyword. str_in keyword domain) keywords"

section \<open>The worker: matching, resolution and logging\<close>

text \<open>
  What a worker changes: the global \<^verbatim>\<open>FOUND_COUNT\<close>, the text of the file
  \<^verbatim>\<open>domains.log\<close>, and the notices printed by \<^verbatim>\<open>cprint\<close>, in order.
\<close>

datatype notice =
    Found_domain string
  | Found_domain_resolving string string
  | Found_domain_not_resolving string

record state =
  FOUND_COUNT :: int
  domains_log :: string
  stdout :: "notice list"

text \<open>
  What a worker reads from outside the program: \<open>resolve_ip domain\<close> is the value of
  \<^verbatim>\<open>str(netaddr.IPAddress(socket.gethostbyname(domain)))\<close>, and \<open>None\<close> when either call
  raises; \<open>log_writable\<close> says whether \<^verbatim>\<open>open("domains.log", "a+")\<close> succeeds.
\<close>

record env =
  resolve_ip :: "string \<Rightarrow> string option"
  log_writable :: bool

datatype py_exception = OSError | IndexError

text \<open>
  How a call ends: it returns, it raises, or it waits on the queue for another thread.
  Each case carries the state the call has reached by then.
\<close>

datatype 's outcome = Returns 's | Raises py_exception 's | Blocks 's

fun state_of :: "'s outcome \<Rightarrow> 's" where
  "state_of (Returns s) = s"
| "state_of (Raises x s) = s"
| "state_of (Blocks s) = s"

definition os_linesep :: string where
  "os_linesep = [CHR 0x0A]"

definition cprint :: "notice \<Rightarrow> state \<Rightarrow> state" where
  "cprint n s = s\<lparr>stdout := stdout s @ [n]\<rparr>"

text \<open>
  \<^verbatim>\<open>DomainWorker.__log\<close>: the counter is incremented first; the file is opened and
  written only under \<^verbatim>\<open>ARGS.log_to_file\<close>, and a failing \<^verbatim>\<open>open\<close> raises after the
  increment.
\<close>

definition log_finding :: "args \<Rightarrow> env \<Rightarrow> string \<Rightarrow> state \<Rightarrow> state outcome" where
  "log_finding a e new_domain s =
     (let s1 = s\<lparr>FOUND_COUNT := FOUND_COUNT s + 1\<rparr>
      in if log_to_file a
         then (if log_writable e
               then Returns (s1\<lparr>domains_log := domains_log s1 @ new_domain @ os_linesep\<rparr>)
               else Raises OSError s1)
         else Returns s1)"

text \<open>
  \<^verbatim>\<open>DomainWorker.__check_resolution\<close>. \<open>resolution_except\<close> is the body of the
  \<^verbatim>\<open>except Exception\<close> clause; it runs when the lookup raises and also when
  \<^verbatim>\<open>__log\<close> raises inside the \<^verbatim>\<open>try\<close>.
\<close>

definition resolution_except :: "args \<Rightarrow> env \<Rightarrow> string \<Rightarrow> state \<Rightarrow> state outcome" where
  "resolution_except a e domain s =
     (let s1 = cprint (Found_domain_not_resolving domain) s
      in if \<not> only_resolving a then log_finding a e domain s1 else Returns s1)"

definition check_resolution :: "args \<Rightarrow> env \<Rightarrow> string \<Rightarrow> state \<Rightarrow> state outcome" where
  "check_resolution a e domain s =
     (case resolve_ip e domain of
        None \<Rightarrow> resolution_except a e domain s
      | Some ip \<Rightarrow>
          (let s1 = cprint (Found_domain_resolving domain ip) s
           in if only_resolving a
              then (case log_finding a e (domain @ '','' @ ip) s1 of
                      Returns s2 \<Rightarrow> Returns s2
                    | Raises x s2 \<Rightarrow> resolution_except a e domain s2
                    | Blocks s2 \<Rightarrow> Blocks s2)
              else Returns s1))"

text \<open>
  The expression \<^verbatim>\<open>domain[2:] if domain.startswith('*.') else domain\<close> of
  \<^verbatim>\<open>DomainWorker.__process\<close>.
\<close>

definition strip_wildcard :: "string \<Rightarrow> string" where
  "strip_wildcard domain = (if prefix ''*.'' domain then drop 2 domain else domain)"

text \<open>
  \<^verbatim>\<open>DomainWorker.__process\<close>: the keyword test is made on the domain as it came from the
  queue; the wildcard is removed inside the positive branch.
\<close>

definition process :: "args \<Rightarrow> env \<Rightarrow> string list \<Rightarrow> string \<Rightarrow> state \<Rightarrow> state outcome" where
  "process a e keywords domain s =
     (if domain_contains_any_keywords keywords domain
      then (let domain' = strip_wildcard domain
            in if resolve a
               then check_resolution a e domain' s
               else log_finding a e domain' (cprint (Found_domain domain') s))
      else Returns s)"

text \<open>
  The order of the specification, for comparison with \<open>process\<close>: the wildcard is removed
  first and the keyword test is made on the result.
\<close>

definition process_normalize_first ::
  "args \<Rightarrow> env \<Rightarrow> string list \<Rightarrow> string \<Rightarrow> state \<Rightarrow> state outcome" where
  "process_normalize_first a e keywords domain s =
     (let domain' = strip_wildcard domain
      in if domain_contains_any_keywords keywords domain'
         then (if resolve a
               then check_resolution a e domain' s
               else log_finding a e domain' (cprint (Found_domain domain') s))
         else Returns s)"

section \<open>The queue\<close>

text \<open>
  \<^verbatim>\<open>DomainQueue\<close>: the fields set in \<^verbatim>\<open>__init__\<close>, and of the inherited \<^verbatim>\<open>Queue\<close> its
  \<^verbatim>\<open>maxsize\<close> and its buffer, here \<open>queue\<close>, oldest item first. Times are readings of
  \<^verbatim>\<open>time.monotonic()\<close>, in seconds.
\<close>

record DomainQueue =
  checked_domains :: "string list"
  rate_limited :: bool
  next_yield :: rat
  maxsize :: int
  queue :: "string list"

definition DomainQueue_init :: "int \<Rightarrow> DomainQueue" where
  "DomainQueue_init m =
     \<lparr>checked_domains = [], rate_limited = False, next_yield = 0, maxsize = m, queue = []\<rparr>"

text \<open>
  The inherited \<^verbatim>\<open>Queue.put\<close> and \<^verbatim>\<open>Queue.get\<close>, called without a timeout: \<^verbatim>\<open>put\<close> waits
  while a positive \<^verbatim>\<open>maxsize\<close> is reached, \<^verbatim>\<open>get\<close> waits while the buffer is empty.
\<close>

definition full :: "DomainQueue \<Rightarrow> bool" where
  "full q = (0 < maxsize q \<and> maxsize q \<le> int (length (queue q)))"

definition Queue_put :: "string \<Rightarrow> DomainQueue \<Rightarrow> DomainQueue outcome" where
  "Queue_put item q = (if full q then Blocks q else Returns (q\<lparr>queue := queue q @ [item]\<rparr>))"

definition Queue_get :: "DomainQueue \<Rightarrow> string option \<times> DomainQueue" where
  "Queue_get q = (case queue q of [] \<Rightarrow> (None, q) | item # rest \<Rightarrow> (Some item, q\<lparr>queue := rest\<rparr>))"

text \<open>
  \<^verbatim>\<open>DomainQueue.put\<close>. A domain already in \<^verbatim>\<open>checked_domains\<close> is dropped before the
  buffer is touched; a new one is recorded first and then handed to \<^verbatim>\<open>Queue.put\<close>.
\<close>

definition put :: "string \<Rightarrow> DomainQueue \<Rightarrow> DomainQueue outcome" where
  "put domain q =
     (if domain \<notin> set (checked_domains q)
      then Queue_put domain (q\<lparr>checked_domains := checked_domains q @ [domain]\<rparr>)
      else Returns q)"

text \<open>
  \<^verbatim>\<open>DomainQueue.get\<close>. \<open>t\<close> is the first reading of the clock. \<^verbatim>\<open>time.sleep(d)\<close> returns
  after \<open>d\<close> seconds or later, so the second reading is \<open>t + d + lag\<close> for some \<open>lag\<close>,
  which the caller of the model supplies. The result is the time at which the block
  under the lock is left, the item (\<open>None\<close> while \<^verbatim>\<open>Queue.get\<close> waits on an empty
  buffer), and the queue.
\<close>

definition get :: "rat \<Rightarrow> rat \<Rightarrow> rat \<Rightarrow> DomainQueue \<Rightarrow> rat \<times> string option \<times> DomainQueue" where
  "get RATE_LIMIT_SLEEP t lag q =
     (let (t1, q1) =
            (if rate_limited q \<and> t < next_yield q
             then (t + (next_yield q - t) + lag, q\<lparr>rate_limited := False\<rparr>)
             else (t, q));
          q2 = q1\<lparr>next_yield := t1 + RATE_LIMIT_SLEEP\<rparr>
      in (t1, Queue_get q2))"

text \<open>
  The queue states of a run: a fresh queue, and what \<^verbatim>\<open>put\<close> and \<^verbatim>\<open>get\<close> make of a
  state already reached. These two methods and \<^verbatim>\<open>__init__\<close> are the only code of the
  program that assigns a field of the queue.
\<close>

inductive reachable :: "DomainQueue \<Rightarrow> bool" where
  fresh: "reachable (DomainQueue_init m)"
| after_put: "reachable q \<Longrightarrow> reachable (state_of (put domain q))"
| after_get: "reachable q \<Longrightarrow> reachable (snd (snd (get RATE_LIMIT_SLEEP t lag q)))"

text \<open>
  The bookkeeping of \<^verbatim>\<open>checked_domains\<close>: no domain is recorded twice, and every queued
  item has been recorded.
\<close>

definition seen_inv :: "DomainQueue \<Rightarrow> bool" where
  "seen_inv q = (distinct (checked_domains q) \<and> set (queue q) \<subseteq> set (checked_domains q))"

section \<open>The certificate stream\<close>

text \<open>
  The fields of a message that \<^verbatim>\<open>CertStreamThread.process\<close> reads:
  \<^verbatim>\<open>message["message_type"]\<close>, \<^verbatim>\<open>message["data"]["leaf_cert"]["all_domains"]\<close>, and for
  each entry of \<^verbatim>\<open>message["data"]["chain"]\<close> its \<^verbatim>\<open>["subject"]["aggregated"]\<close>.
\<close>

record message =
  message_type :: string
  all_domains :: "string list"
  chain_subject_aggregated :: "string list"

text \<open>The loop \<^verbatim>\<open>for domain in ...: self.q.put(domain)\<close>; it stops where a \<^verbatim>\<open>put\<close> waits.\<close>

fun put_each :: "string list \<Rightarrow> DomainQueue \<Rightarrow> DomainQueue outcome" where
  "put_each [] q = Returns q"
| "put_each (domain # rest) q =
     (case put domain q of
        Returns q1 \<Rightarrow> put_each rest q1
      | Raises x q1 \<Rightarrow> Raises x q1
      | Blocks q1 \<Rightarrow> Blocks q1)"

text \<open>
  \<^verbatim>\<open>CertStreamThread.process\<close>. \<^verbatim>\<open>chain[0]\<close> raises on an empty chain, and is evaluated
  only when \<^verbatim>\<open>ARGS.skip_lets_encrypt\<close> holds. Python leaves the order in which
  \<^verbatim>\<open>set(all_domains)\<close> is traversed open; the model takes the order of \<open>remdups\<close>.
\<close>

definition CertStreamThread_process :: "args \<Rightarrow> message \<Rightarrow> DomainQueue \<Rightarrow> DomainQueue outcome" where
  "CertStreamThread_process a m q =
     (if message_type m = ''heartbeat'' then Returns q
      else if message_type m = ''certificate_update''
      then (if skip_lets_encrypt a
            then (case chain_subject_aggregated m of
                    [] \<Rightarrow> Raises IndexError q
                  | issuer # _ \<Rightarrow>
                      if str_in ''Let's Encrypt'' issuer then Returns q
                      else put_each (remdups (all_domains m)) q)
            else put_each (remdups (all_domains m)) q)
      else Returns q)"

section \<open>Start-up: the number of workers\<close>

text \<open>
  The \<^verbatim>\<open>--threads\<close> option as \<^verbatim>\<open>argparse\<close> treats it under \<^verbatim>\<open>type=int, default=20\<close>: an
  absent option gives the default, an integer gives itself, and any other text makes the
  parser report a usage error and exit, so that \<^verbatim>\<open>main\<close> does not go on.
\<close>

datatype threads_option = Absent | Given int | Not_an_integer

definition parse_threads :: "threads_option \<Rightarrow> int option" where
  "parse_threads opt =
     (case opt of Absent \<Rightarrow> Some 20 | Given n \<Rightarrow> Some n | Not_an_integer \<Rightarrow> None)"

text \<open>
  \<^verbatim>\<open>if not ARGS.threads: ARGS.threads = 5\<close>: an \<^verbatim>\<open>int\<close> is false exactly when it is zero.
\<close>

definition default_threads :: "args \<Rightarrow> args" where
  "default_threads a = (if threads a = 0 then a\<lparr>threads := 5\<rparr> else a)"

text \<open>
  The number of \<^verbatim>\<open>DomainWorker\<close> objects built by
  \<^verbatim>\<open>[DomainWorker(q) for _ in range(0, ARGS.threads)]\<close>.
\<close>

definition worker_count :: "args \<Rightarrow> nat" where
  "worker_count a = length [0 .. threads a - 1]"

definition main_worker_count :: "threads_option \<Rightarrow> args \<Rightarrow> nat option" where
  "main_worker_count opt a =
     (case parse_threads opt of
        None \<Rightarrow> None
      | Some n \<Rightarrow> Some (worker_count (default_threads (a\<lparr>threads := n\<rparr>))))"

section \<open>Substring test and keyword expansion: basic facts\<close>

lemma str_in_sublist: "str_in k d = sublist k d"
  by (induction d) (simp_all add: sublist_Cons_right)

lemma str_in_iff: "str_in k d \<longleftrightarrow> (\<exists>pre post. d = pre @ k @ post)"
  by (simp add: str_in_sublist sublist_def)

lemma foldl_append_concat:
  "foldl (\<lambda>acc x. acc @ f x) acc0 xs = acc0 @ concat (map f xs)"
  by (induction xs arbitrary: acc0) simp_all

lemma KEYWORD_DOMAINS_keywords_only:
  "keywords_only a \<Longrightarrow> KEYWORD_DOMAINS a inp = concat (map get_permutations inp)"
  by (simp add: KEYWORD_DOMAINS_def foldl_append_concat)

lemma set_get_permutations:
  "set (get_permutations s) =
     {s @ ''-'', ''-'' @ s @ ''-'', ''-'' @ s, ''.'' @ s @ ''.'', ''.'' @ s,
      ''.'' @ s @ ''-'', ''-'' @ s @ ''.''}"
  by (auto simp: get_permutations_def)

lemma contains_any_iff:
  "domain_contains_any_keywords ks d \<longleftrightarrow> (\<exists>k. k \<in> set ks \<and> str_in k d)"
  by (auto simp: domain_contains_any_keywords_def list_ex_iff)

lemma not_in_own_permutations: "s \<notin> set (get_permutations s)"
proof
  assume "s \<in> set (get_permutations s)"
  then have "\<exists>p\<in>set (get_permutations s). length p = length s" by blast
  then show False by (simp add: get_permutations_def)
qed

lemma str_in_drop: "str_in k (drop n d) \<Longrightarrow> str_in k d"
proof -
  assume "str_in k (drop n d)"
  then obtain pre post where "drop n d = pre @ k @ post" unfolding str_in_iff by blast
  then have "take n d @ drop n d = take n d @ pre @ k @ post" by simp
  then have "d = (take n d @ pre) @ k @ post" by simp
  then show ?thesis unfolding str_in_iff by blast
qed

lemma str_in_strip_wildcard: "str_in k (strip_wildcard d) \<Longrightarrow> str_in k d"
proof (cases "prefix ''*.'' d")
  case True
  assume "str_in k (strip_wildcard d)"
  with True have "str_in k (drop 2 d)" by (simp only: strip_wildcard_def if_True)
  then show ?thesis by (rule str_in_drop)
next
  case False
  assume "str_in k (strip_wildcard d)"
  with False show ?thesis by (simp only: strip_wildcard_def if_False)
qed

lemma contains_strip_wildcard:
  "domain_contains_any_keywords ks (strip_wildcard d) \<Longrightarrow> domain_contains_any_keywords ks d"
  unfolding contains_any_iff using str_in_strip_wildcard by blast

section \<open>The queue: invariants of the reachable states\<close>

lemma full_checked_update [simp]: "full (q\<lparr>checked_domains := xs\<rparr>) = full q"
  by (simp add: full_def)

lemma put_rate_limited: "rate_limited (state_of (put d q)) = rate_limited q"
  by (simp add: put_def Queue_put_def)

lemma get_rate_limited:
  "rate_limited q = False \<Longrightarrow> rate_limited (snd (snd (get r t lag q))) = False"
  by (simp add: get_def Queue_get_def Let_def split: list.split)

lemma reachable_not_rate_limited: "reachable q \<Longrightarrow> rate_limited q = False"
proof (induction rule: reachable.induct)
  case (fresh m)
  show ?case by (simp add: DomainQueue_init_def)
next
  case (after_put q domain)
  then show ?case by (simp add: put_rate_limited)
next
  case (after_get q r t lag)
  from after_get.IH show ?case by (rule get_rate_limited)
qed

lemma put_seen_inv: "seen_inv q \<Longrightarrow> seen_inv (state_of (put d q))"
  by (auto simp: seen_inv_def put_def Queue_put_def)

lemma get_seen_inv: "seen_inv q \<Longrightarrow> seen_inv (snd (snd (get r t lag q)))"
  by (auto simp: seen_inv_def get_def Queue_get_def Let_def split: list.split)

lemma reachable_seen_inv: "reachable q \<Longrightarrow> seen_inv q"
proof (induction rule: reachable.induct)
  case (fresh m)
  show ?case by (simp add: DomainQueue_init_def seen_inv_def)
next
  case (after_put q domain)
  from after_put.IH show ?case by (rule put_seen_inv)
next
  case (after_get q r t lag)
  from after_get.IH show ?case by (rule get_seen_inv)
qed

lemma count_list_distinct: "distinct xs \<Longrightarrow> x \<in> set xs \<Longrightarrow> count_list xs x = 1"
  by (induction xs) auto

lemma count_list_notin: "x \<notin> set xs \<Longrightarrow> count_list xs x = 0"
  by (induction xs) auto

lemma put_seen: "d \<in> set (checked_domains (state_of (put d q)))"
  by (simp add: put_def Queue_put_def)

section \<open>Keyword expansion\<close>

text \<open>
  C7. With \<^verbatim>\<open>--keywords-only\<close>, every seed \<open>foo\<close> of the input list puts the seven forms
  \<open>foo-\<close>, \<open>-foo-\<close>, \<open>-foo\<close>, \<open>.foo.\<close>, \<open>.foo\<close>, \<open>.foo-\<close>, \<open>-foo.\<close> into the keyword list, and
  the matcher answers true for every domain that contains one of them as a substring.
\<close>

theorem C7_keyword_expansion:
  "keywords_only a \<Longrightarrow> foo \<in> set INPUT_DOMAINS \<Longrightarrow>
     {foo @ ''-'', ''-'' @ foo @ ''-'', ''-'' @ foo, ''.'' @ foo @ ''.'', ''.'' @ foo,
      ''.'' @ foo @ ''-'', ''-'' @ foo @ ''.''} \<subseteq> set (KEYWORD_DOMAINS a INPUT_DOMAINS)
     \<and> (\<forall>p pre post.
          p \<in> {foo @ ''-'', ''-'' @ foo @ ''-'', ''-'' @ foo, ''.'' @ foo @ ''.'', ''.'' @ foo,
               ''.'' @ foo @ ''-'', ''-'' @ foo @ ''.''}
          \<longrightarrow> domain_contains_any_keywords (KEYWORD_DOMAINS a INPUT_DOMAINS) (pre @ p @ post))"
proof -
  assume ko: "keywords_only a" and mem: "foo \<in> set INPUT_DOMAINS"
  let ?F = "{foo @ ''-'', ''-'' @ foo @ ''-'', ''-'' @ foo, ''.'' @ foo @ ''.'', ''.'' @ foo,
             ''.'' @ foo @ ''-'', ''-'' @ foo @ ''.''}"
  have sub: "?F \<subseteq> set (KEYWORD_DOMAINS a INPUT_DOMAINS)"
  proof
    fix p assume "p \<in> ?F"
    then have "p \<in> set (get_permutations foo)"
      unfolding set_get_permutations .
    with mem show "p \<in> set (KEYWORD_DOMAINS a INPUT_DOMAINS)"
      by (auto simp: KEYWORD_DOMAINS_keywords_only [OF ko])
  qed
  have "domain_contains_any_keywords (KEYWORD_DOMAINS a INPUT_DOMAINS) (pre @ p @ post)"
    if "p \<in> ?F" for p pre post
  proof -
    from that sub have "p \<in> set (KEYWORD_DOMAINS a INPUT_DOMAINS)" by blast
    moreover have "str_in p (pre @ p @ post)" unfolding str_in_iff by blast
    ultimately show ?thesis unfolding contains_any_iff by blast
  qed
  with sub show ?thesis by blast
qed

theorem C7_keyword_expansion_witness:
  "domain_contains_any_keywords
     (KEYWORD_DOMAINS \<lparr>resolve = False, only_resolving = False, skip_lets_encrypt = False,
         threads = 20, log_to_file = False, keywords_only = True\<rparr> [''foo''])
     ''test.foo.com''"
proof -
  let ?a = "\<lparr>resolve = False, only_resolving = False, skip_lets_encrypt = False,
         threads = 20, log_to_file = False, keywords_only = True\<rparr>"
  have h1: "keywords_only ?a" by simp
  have h2: "''foo'' \<in> set [''foo'']" by simp
  have "''.'' @ ''foo'' @ ''.'' \<in> {''foo'' @ ''-'', ''-'' @ ''foo'' @ ''-'', ''-'' @ ''foo'',
      ''.'' @ ''foo'' @ ''.'', ''.'' @ ''foo'', ''.'' @ ''foo'' @ ''-'', ''-'' @ ''foo'' @ ''.''}"
    by simp
  with C7_keyword_expansion [OF h1 h2]
  have "domain_contains_any_keywords (KEYWORD_DOMAINS ?a [''foo''])
          (''test'' @ (''.'' @ ''foo'' @ ''.'') @ ''com'')"
    by blast
  then show ?thesis by simp
qed

text \<open>
  C10, as the source has it. With \<^verbatim>\<open>--keywords-only\<close> the keyword list holds exactly the
  seven decorated forms of each seed; no seed is one of its own permutations, so a list
  made from a single seed does not hold that seed; a domain matches exactly when it
  contains a decorated form of some seed. So \<open>foobar.com\<close> does not match for the single
  seed \<open>foo\<close>.
\<close>

theorem C10_decorated_only:
  "keywords_only a \<Longrightarrow>
     (\<forall>k. k \<in> set (KEYWORD_DOMAINS a INPUT_DOMAINS) \<longleftrightarrow>
        (\<exists>s. s \<in> set INPUT_DOMAINS \<and>
           k \<in> {s @ ''-'', ''-'' @ s @ ''-'', ''-'' @ s, ''.'' @ s @ ''.'', ''.'' @ s,
                ''.'' @ s @ ''-'', ''-'' @ s @ ''.''}))
   \<and> (\<forall>s. s \<notin> set (get_permutations s))
   \<and> (\<forall>s. s \<notin> set (KEYWORD_DOMAINS a [s]))
   \<and> (\<forall>d. domain_contains_any_keywords (KEYWORD_DOMAINS a INPUT_DOMAINS) d \<longleftrightarrow>
        (\<exists>s p pre post. s \<in> set INPUT_DOMAINS \<and>
           p \<in> {s @ ''-'', ''-'' @ s @ ''-'', ''-'' @ s, ''.'' @ s @ ''.'', ''.'' @ s,
                ''.'' @ s @ ''-'', ''-'' @ s @ ''.''} \<and> d = pre @ p @ post))
   \<and> \<not> domain_contains_any_keywords (KEYWORD_DOMAINS a [''foo'']) ''foobar.com''"
proof -
  assume ko: "keywords_only a"
  have K: "\<And>inp. set (KEYWORD_DOMAINS a inp) = (\<Union>s\<in>set inp. set (get_permutations s))"
    by (simp add: KEYWORD_DOMAINS_keywords_only [OF ko])
  have 1: "\<forall>k. k \<in> set (KEYWORD_DOMAINS a INPUT_DOMAINS) \<longleftrightarrow>
        (\<exists>s. s \<in> set INPUT_DOMAINS \<and>
           k \<in> {s @ ''-'', ''-'' @ s @ ''-'', ''-'' @ s, ''.'' @ s @ ''.'', ''.'' @ s,
                ''.'' @ s @ ''-'', ''-'' @ s @ ''.''})"
    unfolding K set_get_permutations [symmetric] by blast
  have 2: "\<forall>s. s \<notin> set (get_permutations s)"
    using not_in_own_permutations by blast
  have 3: "\<forall>s. s \<notin> set (KEYWORD_DOMAINS a [s])"
    using not_in_own_permutations by (simp add: K)
  have 4: "\<forall>d. domain_contains_any_keywords (KEYWORD_DOMAINS a INPUT_DOMAINS) d \<longleftrightarrow>
        (\<exists>s p pre post. s \<in> set INPUT_DOMAINS \<and>
           p \<in> {s @ ''-'', ''-'' @ s @ ''-'', ''-'' @ s, ''.'' @ s @ ''.'', ''.'' @ s,
                ''.'' @ s @ ''-'', ''-'' @ s @ ''.''} \<and> d = pre @ p @ post)"
    unfolding contains_any_iff str_in_iff K set_get_permutations [symmetric] by blast
  have 5: "\<not> domain_contains_any_keywords (KEYWORD_DOMAINS a [''foo'']) ''foobar.com''"
    by (simp add: KEYWORD_DOMAINS_keywords_only [OF ko] get_permutations_def
        domain_contains_any_keywords_def)
  from 1 2 3 4 5 show ?thesis by blast
qed

theorem C10_decorated_only_witness:
  "''foo'' \<notin> set (KEYWORD_DOMAINS
        \<lparr>resolve = False, only_resolving = False, skip_lets_encrypt = False,
         threads = 20, log_to_file = False, keywords_only = True\<rparr> [''foo''])
   \<and> \<not> domain_contains_any_keywords (KEYWORD_DOMAINS
        \<lparr>resolve = False, only_resolving = False, skip_lets_encrypt = False,
         threads = 20, log_to_file = False, keywords_only = True\<rparr> [''foo'']) ''foobar.com''"
proof -
  let ?a = "\<lparr>resolve = False, only_resolving = False, skip_lets_encrypt = False,
         threads = 20, log_to_file = False, keywords_only = True\<rparr>"
  have h: "keywords_only ?a" by simp
  from C10_decorated_only [OF h, of "[]"] show ?thesis by blast
qed

text \<open>
  C10 as it is worded fails where one seed is a decorated form of another: with the
  seeds \<open>foo\<close> and \<open>foo-\<close> the keyword list holds the seed \<open>foo-\<close>, as a permutation of
  \<open>foo\<close>.
\<close>

theorem C10_counterexample:
  "''foo-'' \<in> set [''foo'', ''foo-'']
   \<and> ''foo-'' \<in> set (KEYWORD_DOMAINS
        \<lparr>resolve = False, only_resolving = False, skip_lets_encrypt = False,
         threads = 20, log_to_file = False, keywords_only = True\<rparr> [''foo'', ''foo-''])"
  by (simp add: KEYWORD_DOMAINS_def get_permutations_def)

section \<open>Wildcard removal and the keyword test\<close>

text \<open>
  C2, as the source has it. The keyword test is made on the domain as received, and the
  leading \<open>*.\<close> is removed only after a positive test, before resolution and logging. A
  keyword that occurs in the stripped form occurs in the received form too, so it still
  matches; a domain that fails the test leaves the state as it was; a match in resolve
  mode is resolved in its stripped form, and a match outside resolve mode is printed
  and logged in its stripped form.
\<close>

theorem C2_match_then_strip:
  "(domain_contains_any_keywords ks (strip_wildcard d) \<longrightarrow> domain_contains_any_keywords ks d)
   \<and> (\<not> domain_contains_any_keywords ks d \<longrightarrow> process a e ks d s = Returns s)
   \<and> (domain_contains_any_keywords ks d \<and> resolve a \<longrightarrow>
        process a e ks d s = check_resolution a e (strip_wildcard d) s)
   \<and> (domain_contains_any_keywords ks d \<and> \<not> resolve a \<and> log_to_file a \<and> log_writable e \<longrightarrow>
        process a e ks d s =
          Returns (s\<lparr>FOUND_COUNT := FOUND_COUNT s + 1,
                     domains_log := domains_log s @ strip_wildcard d @ os_linesep,
                     stdout := stdout s @ [Found_domain (strip_wildcard d)]\<rparr>))"
  using contains_strip_wildcard [of ks d]
  by (simp add: process_def log_finding_def cprint_def Let_def)

theorem C2_match_then_strip_witness:
  "process
     \<lparr>resolve = False, only_resolving = False, skip_lets_encrypt = False,
      threads = 20, log_to_file = True, keywords_only = False\<rparr>
     \<lparr>resolve_ip = (\<lambda>d. None), log_writable = True\<rparr>
     [''example''] ''*.example.com''
     \<lparr>FOUND_COUNT = 0, domains_log = [], stdout = []\<rparr>
   = Returns \<lparr>FOUND_COUNT = 1, domains_log = ''example.com'' @ os_linesep,
        stdout = [Found_domain ''example.com'']\<rparr>"
proof -
  let ?a = "\<lparr>resolve = False, only_resolving = False, skip_lets_encrypt = False,
      threads = 20, log_to_file = True, keywords_only = False\<rparr>"
  let ?e = "\<lparr>resolve_ip = (\<lambda>d. None), log_writable = True\<rparr>"
  let ?s = "\<lparr>FOUND_COUNT = 0, domains_log = [], stdout = []\<rparr>"
  have h: "domain_contains_any_keywords [''example''] (strip_wildcard ''*.example.com'')"
    by (simp add: domain_contains_any_keywords_def strip_wildcard_def)
  have c: "\<not> resolve ?a \<and> log_to_file ?a \<and> log_writable ?e" by simp
  from C2_match_then_strip [of "[''example'']" "''*.example.com''" ?a ?e ?s] h c
  have "process ?a ?e [''example''] ''*.example.com'' ?s =
          Returns (?s\<lparr>FOUND_COUNT := FOUND_COUNT ?s + 1,
                     domains_log := domains_log ?s @ strip_wildcard ''*.example.com'' @ os_linesep,
                     stdout := stdout ?s @ [Found_domain (strip_wildcard ''*.example.com'')]\<rparr>)"
    by blast
  then show ?thesis by (simp add: strip_wildcard_def)
qed

text \<open>
  C2 as it is worded puts the removal before the test. The keyword \<open>.example\<close> occurs in
  \<open>*.example.com\<close> and not in \<open>example.com\<close>: the source matches and logs
  \<open>example.com\<close>, while removal before the test finds no match and logs nothing.
\<close>

theorem C2_counterexample:
  "process
     \<lparr>resolve = False, only_resolving = False, skip_lets_encrypt = False,
      threads = 20, log_to_file = True, keywords_only = False\<rparr>
     \<lparr>resolve_ip = (\<lambda>d. None), log_writable = True\<rparr>
     [''.example''] ''*.example.com''
     \<lparr>FOUND_COUNT = 0, domains_log = [], stdout = []\<rparr>
   = Returns \<lparr>FOUND_COUNT = 1, domains_log = ''example.com'' @ os_linesep,
        stdout = [Found_domain ''example.com'']\<rparr>
   \<and> process_normalize_first
     \<lparr>resolve = False, only_resolving = False, skip_lets_encrypt = False,
      threads = 20, log_to_file = True, keywords_only = False\<rparr>
     \<lparr>resolve_ip = (\<lambda>d. None), log_writable = True\<rparr>
     [''.example''] ''*.example.com''
     \<lparr>FOUND_COUNT = 0, domains_log = [], stdout = []\<rparr>
   = Returns \<lparr>FOUND_COUNT = 0, domains_log = [], stdout = []\<rparr>"
  by (simp add: process_def process_normalize_first_def domain_contains_any_keywords_def
      strip_wildcard_def log_finding_def cprint_def)

section \<open>Resolve mode\<close>

text \<open>
  The two paths of \<^verbatim>\<open>__check_resolution\<close> when \<^verbatim>\<open>--only-resolving\<close> is not given: a lookup
  that succeeds ends with the console notice alone, a lookup that fails goes on to
  \<^verbatim>\<open>__log\<close>.
\<close>

lemma check_resolution_success_without_flag:
  "\<not> only_resolving a \<Longrightarrow> resolve_ip e domain = Some ip \<Longrightarrow>
     check_resolution a e domain s = Returns (cprint (Found_domain_resolving domain ip) s)"
  by (simp add: check_resolution_def)

lemma check_resolution_failure_without_flag:
  "\<not> only_resolving a \<Longrightarrow> resolve_ip e domain = None \<Longrightarrow>
     check_resolution a e domain s =
       log_finding a e domain (cprint (Found_domain_not_resolving domain) s)"
  by (simp add: check_resolution_def resolution_except_def)

lemma check_resolution_success_with_flag:
  "only_resolving a \<Longrightarrow> resolve_ip e domain = Some ip \<Longrightarrow> \<not> log_to_file a \<or> log_writable e \<Longrightarrow>
     check_resolution a e domain s =
       log_finding a e (domain @ '','' @ ip) (cprint (Found_domain_resolving domain ip) s)"
  by (auto simp: check_resolution_def log_finding_def Let_def)

text \<open>
  C1, at a concrete input. In resolve mode without \<^verbatim>\<open>--only-resolving\<close>, the matching
  domain \<open>www.example.com\<close> resolves to \<open>93.184.216.34\<close>; the notice is printed, and
  the counter and the log file stay as they were.
\<close>

theorem C1_resolving_match_dropped:
  "process
     \<lparr>resolve = True, only_resolving = False, skip_lets_encrypt = False,
      threads = 20, log_to_file = True, keywords_only = False\<rparr>
     \<lparr>resolve_ip = (\<lambda>d. if d = ''www.example.com'' then Some ''93.184.216.34'' else None),
      log_writable = True\<rparr>
     [''example''] ''www.example.com''
     \<lparr>FOUND_COUNT = 0, domains_log = [], stdout = []\<rparr>
   = Returns \<lparr>FOUND_COUNT = 0, domains_log = [],
        stdout = [Found_domain_resolving ''www.example.com'' ''93.184.216.34'']\<rparr>"
  by (simp add: process_def domain_contains_any_keywords_def strip_wildcard_def
      check_resolution_def cprint_def)

text \<open>
  C5. In resolve mode with \<^verbatim>\<open>--only-resolving\<close>, a matching domain whose lookup fails
  is reported on the console only: the call returns, \<^verbatim>\<open>FOUND_COUNT\<close> and the log file
  are unchanged.
\<close>

theorem C5_only_resolving_miss_dropped:
  "resolve a \<Longrightarrow> only_resolving a \<Longrightarrow> domain_contains_any_keywords ks d \<Longrightarrow>
   resolve_ip e (strip_wildcard d) = None \<Longrightarrow>
     process a e ks d s =
       Returns (s\<lparr>stdout := stdout s @ [Found_domain_not_resolving (strip_wildcard d)]\<rparr>)
     \<and> FOUND_COUNT (state_of (process a e ks d s)) = FOUND_COUNT s
     \<and> domains_log (state_of (process a e ks d s)) = domains_log s"
  by (simp add: process_def check_resolution_def resolution_except_def cprint_def)

theorem C5_only_resolving_miss_dropped_witness:
  "FOUND_COUNT (state_of (process
     \<lparr>resolve = True, only_resolving = True, skip_lets_encrypt = False,
      threads = 20, log_to_file = True, keywords_only = False\<rparr>
     \<lparr>resolve_ip = (\<lambda>d. None), log_writable = True\<rparr>
     [''bank''] ''*.secure-bank.example.com''
     \<lparr>FOUND_COUNT = 3, domains_log = ''x'', stdout = []\<rparr>)) = 3
   \<and> domains_log (state_of (process
     \<lparr>resolve = True, only_resolving = True, skip_lets_encrypt = False,
      threads = 20, log_to_file = True, keywords_only = False\<rparr>
     \<lparr>resolve_ip = (\<lambda>d. None), log_writable = True\<rparr>
     [''bank''] ''*.secure-bank.example.com''
     \<lparr>FOUND_COUNT = 3, domains_log = ''x'', stdout = []\<rparr>)) = ''x''"
proof -
  let ?a = "\<lparr>resolve = True, only_resolving = True, skip_lets_encrypt = False,
      threads = 20, log_to_file = True, keywords_only = False\<rparr>"
  let ?e = "\<lparr>resolve_ip = (\<lambda>d. None), log_writable = True\<rparr>"
  have h1: "resolve ?a" and h2: "only_resolving ?a" by simp_all
  have h3: "domain_contains_any_keywords [''bank''] ''*.secure-bank.example.com''"
    by (simp add: domain_contains_any_keywords_def)
  have h4: "resolve_ip ?e (strip_wildcard ''*.secure-bank.example.com'') = None" by simp
  from C5_only_resolving_miss_dropped [OF h1 h2 h3 h4,
      of "\<lparr>FOUND_COUNT = 3, domains_log = ''x'', stdout = []\<rparr>"]
  show ?thesis by simp
qed

section \<open>Logging a finding\<close>

text \<open>
  C9. Every call of \<^verbatim>\<open>__log\<close> adds one to \<^verbatim>\<open>FOUND_COUNT\<close> and prints nothing; without
  \<^verbatim>\<open>--log\<close> that increment is its whole effect; the log file changes only under
  \<^verbatim>\<open>--log\<close>, and then the line is appended to it.
\<close>

theorem C9_log_effects:
  "FOUND_COUNT (state_of (log_finding a e new_domain s)) = FOUND_COUNT s + 1
   \<and> stdout (state_of (log_finding a e new_domain s)) = stdout s
   \<and> (\<not> log_to_file a \<longrightarrow>
        log_finding a e new_domain s = Returns (s\<lparr>FOUND_COUNT := FOUND_COUNT s + 1\<rparr>))
   \<and> (domains_log (state_of (log_finding a e new_domain s)) \<noteq> domains_log s \<longrightarrow> log_to_file a)
   \<and> (log_to_file a \<and> log_writable e \<longrightarrow>
        domains_log (state_of (log_finding a e new_domain s)) =
          domains_log s @ new_domain @ os_linesep)"
  by (simp add: log_finding_def Let_def)

theorem C9_log_effects_witness:
  "log_finding
     \<lparr>resolve = False, only_resolving = False, skip_lets_encrypt = False,
      threads = 20, log_to_file = False, keywords_only = False\<rparr>
     \<lparr>resolve_ip = (\<lambda>d. None), log_writable = True\<rparr>
     ''secure-bank.example.com''
     \<lparr>FOUND_COUNT = 7, domains_log = ''x'', stdout = []\<rparr>
   = Returns \<lparr>FOUND_COUNT = 8, domains_log = ''x'', stdout = []\<rparr>
   \<and> domains_log (state_of (log_finding
     \<lparr>resolve = False, only_resolving = False, skip_lets_encrypt = False,
      threads = 20, log_to_file = True, keywords_only = False\<rparr>
     \<lparr>resolve_ip = (\<lambda>d. None), log_writable = True\<rparr>
     ''secure-bank.example.com''
     \<lparr>FOUND_COUNT = 7, domains_log = ''x'', stdout = []\<rparr>))
   = ''x'' @ ''secure-bank.example.com'' @ os_linesep"
proof -
  let ?off = "\<lparr>resolve = False, only_resolving = False, skip_lets_encrypt = False,
      threads = 20, log_to_file = False, keywords_only = False\<rparr>"
  let ?on = "\<lparr>resolve = False, only_resolving = False, skip_lets_encrypt = False,
      threads = 20, log_to_file = True, keywords_only = False\<rparr>"
  let ?e = "\<lparr>resolve_ip = (\<lambda>d. None), log_writable = True\<rparr>"
  let ?s = "\<lparr>FOUND_COUNT = 7, domains_log = ''x'', stdout = []\<rparr>"
  have h1: "\<not> log_to_file ?off" by simp
  have h2: "log_to_file ?on \<and> log_writable ?e" by simp
  from C9_log_effects [of ?off ?e "''secure-bank.example.com''" ?s] h1
  have 1: "log_finding ?off ?e ''secure-bank.example.com'' ?s
             = Returns (?s\<lparr>FOUND_COUNT := FOUND_COUNT ?s + 1\<rparr>)"
    by blast
  from C9_log_effects [of ?on ?e "''secure-bank.example.com''" ?s] h2
  have 2: "domains_log (state_of (log_finding ?on ?e ''secure-bank.example.com'' ?s))
             = domains_log ?s @ ''secure-bank.example.com'' @ os_linesep"
    by blast
  from 1 2 show ?thesis by simp
qed

section \<open>Admission to the queue\<close>

text \<open>
  C4. A domain already in \<^verbatim>\<open>checked_domains\<close> is turned away with the queue as it was,
  whether or not the buffer is full. A new domain offered to a buffer with room is
  recorded once and queued once, and the second offer returns the same queue. In every
  reachable state, two offers of a domain leave it exactly once in \<^verbatim>\<open>checked_domains\<close>,
  and, when it was new and the buffer had room, exactly once in the buffer.
\<close>

theorem C4_idempotent_admission:
  "(d \<in> set (checked_domains q) \<longrightarrow> put d q = Returns q)
   \<and> (d \<notin> set (checked_domains q) \<and> \<not> full q \<longrightarrow>
        put d q = Returns (q\<lparr>checked_domains := checked_domains q @ [d], queue := queue q @ [d]\<rparr>))
   \<and> put d (state_of (put d q)) = Returns (state_of (put d q))
   \<and> (reachable q \<longrightarrow>
        count_list (checked_domains (state_of (put d (state_of (put d q))))) d = 1)
   \<and> (reachable q \<and> d \<notin> set (checked_domains q) \<and> \<not> full q \<longrightarrow>
        count_list (queue (state_of (put d (state_of (put d q))))) d = 1)"
proof -
  have 1: "d \<in> set (checked_domains q) \<longrightarrow> put d q = Returns q"
    by (simp add: put_def)
  have 2: "d \<notin> set (checked_domains q) \<and> \<not> full q \<longrightarrow>
        put d q = Returns (q\<lparr>checked_domains := checked_domains q @ [d], queue := queue q @ [d]\<rparr>)"
    by (simp add: put_def Queue_put_def)
  have 3: "put d (state_of (put d q)) = Returns (state_of (put d q))"
    using put_seen [of d q] by (simp add: put_def [of d "state_of (put d q)"])
  have 4: "count_list (checked_domains (state_of (put d (state_of (put d q))))) d = 1"
    if "reachable q"
  proof -
    from that have "seen_inv (state_of (put d q))"
      by (intro put_seen_inv reachable_seen_inv)
    then show ?thesis
      using put_seen [of d q] by (simp add: 3 seen_inv_def count_list_distinct)
  qed
  have 5: "count_list (queue (state_of (put d (state_of (put d q))))) d = 1"
    if "reachable q" "d \<notin> set (checked_domains q)" "\<not> full q"
  proof -
    from that(1) have "seen_inv q" by (rule reachable_seen_inv)
    with that(2) have "d \<notin> set (queue q)" by (auto simp: seen_inv_def)
    then have c: "count_list (queue q @ [d]) d = 1" by (simp add: count_list_notin)
    from that(2,3) 2
    have e: "state_of (put d q) =
               q\<lparr>checked_domains := checked_domains q @ [d], queue := queue q @ [d]\<rparr>"
      by simp
    have "state_of (put d (state_of (put d q))) = state_of (put d q)" by (simp add: 3)
    with e c show ?thesis by simp
  qed
  from 1 2 3 4 5 show ?thesis by blast
qed

theorem C4_idempotent_admission_witness:
  "put ''a.example.com'' (state_of (put ''a.example.com'' (DomainQueue_init 1)))
     = Returns \<lparr>checked_domains = [''a.example.com''], rate_limited = False, next_yield = 0,
         maxsize = 1, queue = [''a.example.com'']\<rparr>
   \<and> count_list (queue (state_of (put ''a.example.com''
        (state_of (put ''a.example.com'' (DomainQueue_init 1)))))) ''a.example.com'' = 1
   \<and> count_list (checked_domains (state_of (put ''a.example.com''
        (state_of (put ''a.example.com'' (DomainQueue_init 1)))))) ''a.example.com'' = 1"
proof -
  let ?q = "DomainQueue_init 1" and ?d = "''a.example.com''"
  have r: "reachable ?q" by (rule reachable.fresh)
  have n: "?d \<notin> set (checked_domains ?q)" by (simp add: DomainQueue_init_def)
  have f: "\<not> full ?q" by (simp add: DomainQueue_init_def full_def)
  from C4_idempotent_admission [of ?d ?q] r n f
  have "put ?d ?q =
          Returns (?q\<lparr>checked_domains := checked_domains ?q @ [?d], queue := queue ?q @ [?d]\<rparr>)"
    and "put ?d (state_of (put ?d ?q)) = Returns (state_of (put ?d ?q))"
    and "count_list (checked_domains (state_of (put ?d (state_of (put ?d ?q))))) ?d = 1"
    and "count_list (queue (state_of (put ?d (state_of (put ?d ?q))))) ?d = 1"
    by blast+
  then show ?thesis by (simp add: DomainQueue_init_def)
qed

section \<open>Withdrawal from the queue\<close>

text \<open>
  C3, as the source has it. A withdrawal sleeps only when \<^verbatim>\<open>rate_limited\<close> is set and the
  clock is before \<^verbatim>\<open>next_yield\<close>, and then it leaves the lock at \<^verbatim>\<open>next_yield\<close> or later;
  in every other case it leaves the lock at the time it entered. The flag is false in
  every reachable state, so there a withdrawal never sleeps. Every withdrawal sets
  \<^verbatim>\<open>next_yield\<close> to the time it leaves the lock plus \<^verbatim>\<open>RATE_LIMIT_SLEEP\<close>.
\<close>

theorem C3_throttle_gated:
  "(reachable q \<longrightarrow> fst (get r t lag q) = t)
   \<and> next_yield (snd (snd (get r t lag q))) = fst (get r t lag q) + r
   \<and> (rate_limited q \<and> t < next_yield q \<and> 0 \<le> lag \<longrightarrow> next_yield q \<le> fst (get r t lag q))
   \<and> (\<not> (rate_limited q \<and> t < next_yield q) \<longrightarrow> fst (get r t lag q) = t)"
proof -
  have 1: "fst (get r t lag q) = t" if "reachable q"
    using reachable_not_rate_limited [OF that] by (simp add: get_def Let_def)
  have 2: "next_yield (snd (snd (get r t lag q))) = fst (get r t lag q) + r"
    by (simp add: get_def Queue_get_def Let_def split: list.split)
  have 3: "rate_limited q \<and> t < next_yield q \<and> 0 \<le> lag \<longrightarrow> next_yield q \<le> fst (get r t lag q)"
    by (simp add: get_def Let_def)
  have 4: "\<not> (rate_limited q \<and> t < next_yield q) \<longrightarrow> fst (get r t lag q) = t"
    by (auto simp: get_def Let_def)
  from 1 2 3 4 show ?thesis by blast
qed

theorem C3_throttle_gated_witness:
  "fst (get 10 1 0 (snd (snd (get 10 0 0 (DomainQueue_init 5))))) = 1
   \<and> 10 \<le> fst (get 10 1 0 \<lparr>checked_domains = [], rate_limited = True, next_yield = 10,
                  maxsize = 5, queue = []\<rparr>)"
proof -
  let ?q1 = "snd (snd (get 10 0 0 (DomainQueue_init 5)))"
  let ?q2 = "\<lparr>checked_domains = [], rate_limited = True, next_yield = 10,
                  maxsize = 5, queue = []\<rparr>"
  have r: "reachable ?q1" by (intro reachable.after_get reachable.fresh)
  have h: "rate_limited ?q2 \<and> (1::rat) < next_yield ?q2 \<and> (0::rat) \<le> 0" by simp
  from C3_throttle_gated [of ?q1 10 1 0] r have 1: "fst (get 10 1 0 ?q1) = 1" by blast
  from C3_throttle_gated [of ?q2 10 1 0] h have 2: "next_yield ?q2 \<le> fst (get 10 1 0 ?q2)"
    by blast
  from 1 2 show ?thesis by simp
qed

text \<open>
  C3 as it is worded fails on a fresh queue with \<^verbatim>\<open>RATE_LIMIT_SLEEP\<close> of 10 seconds and two
  queued domains: the first withdrawal, at time 0, returns \<open>a\<close> and sets the mark to 10;
  the second, at time 1, is before the mark and returns \<open>b\<close> at time 1 without sleeping.
\<close>

theorem C3_counterexample:
  "fst (snd (get 10 0 0 (state_of (put ''b'' (state_of (put ''a'' (DomainQueue_init 5)))))))
     = Some ''a''
   \<and> next_yield (snd (snd (get 10 0 0
        (state_of (put ''b'' (state_of (put ''a'' (DomainQueue_init 5)))))))) = 10
   \<and> get 10 1 0 (snd (snd (get 10 0 0
        (state_of (put ''b'' (state_of (put ''a'' (DomainQueue_init 5))))))))
       = (1, Some ''b'', \<lparr>checked_domains = [''a'', ''b''], rate_limited = False,
            next_yield = 11, maxsize = 5, queue = []\<rparr>)"
  by (simp add: get_def Queue_get_def put_def Queue_put_def full_def DomainQueue_init_def)

section \<open>Certificate events\<close>

text \<open>
  C8. Under \<^verbatim>\<open>--skip-lets-encrypt\<close>, a certificate update whose first chain entry has
  \<open>Let's Encrypt\<close> in its aggregated subject returns with the queue as it was: no domain
  of the event is offered.
\<close>

theorem C8_issuer_skip:
  "skip_lets_encrypt a \<Longrightarrow> message_type m = ''certificate_update'' \<Longrightarrow>
   chain_subject_aggregated m = issuer # rest \<Longrightarrow> str_in ''Let's Encrypt'' issuer \<Longrightarrow>
     CertStreamThread_process a m q = Returns q"
  by (simp add: CertStreamThread_process_def)

theorem C8_issuer_skip_witness:
  "CertStreamThread_process
     \<lparr>resolve = False, only_resolving = False, skip_lets_encrypt = True,
      threads = 20, log_to_file = False, keywords_only = False\<rparr>
     \<lparr>message_type = ''certificate_update'',
      all_domains = [''secure-bank.example.com'', ''unrelated.org''],
      chain_subject_aggregated = [''/C=US/CN=R3/O=Let's Encrypt'']\<rparr>
     (DomainQueue_init 5)
   = Returns (DomainQueue_init 5)"
proof -
  let ?a = "\<lparr>resolve = False, only_resolving = False, skip_lets_encrypt = True,
      threads = 20, log_to_file = False, keywords_only = False\<rparr>"
  let ?m = "\<lparr>message_type = ''certificate_update'',
      all_domains = [''secure-bank.example.com'', ''unrelated.org''],
      chain_subject_aggregated = [''/C=US/CN=R3/O=Let's Encrypt'']\<rparr>"
  have h1: "skip_lets_encrypt ?a" by simp
  have h2: "message_type ?m = ''certificate_update''" by simp
  have h3: "chain_subject_aggregated ?m = ''/C=US/CN=R3/O=Let's Encrypt'' # []" by simp
  have h4: "str_in ''Let's Encrypt'' ''/C=US/CN=R3/O=Let's Encrypt''" by simp
  from C8_issuer_skip [OF h1 h2 h3 h4] show ?thesis .
qed

section \<open>The size of the worker pool\<close>

text \<open>
  The fallback \<^verbatim>\<open>if not ARGS.threads: ARGS.threads = 5\<close>, under the comment
  \<^verbatim>\<open># Defaulting to 5 threads\<close>, is reached by \<^verbatim>\<open>--threads 0\<close>.
\<close>

lemma fallback_on_zero: "main_worker_count (Given 0) a = Some 5"
  by (simp add: main_worker_count_def parse_threads_def default_threads_def worker_count_def)

text \<open>
  C6, at a concrete input. When \<^verbatim>\<open>--threads\<close> is absent from the command line, the parser
  fills in its \<^verbatim>\<open>default=20\<close>, the fallback to 5 does not fire, and the pool is built
  with 20 workers, not 5.
\<close>

theorem C6_unset_threads_gives_20:
  "main_worker_count Absent
     \<lparr>resolve = False, only_resolving = False, skip_lets_encrypt = False,
      threads = 20, log_to_file = False, keywords_only = False\<rparr> = Some 20
   \<and> main_worker_count Absent
     \<lparr>resolve = False, only_resolving = False, skip_lets_encrypt = False,
      threads = 20, log_to_file = False, keywords_only = False\<rparr> \<noteq> Some 5"
  by (simp add: main_worker_count_def parse_threads_def default_threads_def worker_count_def)

end
